theory Spec2Isabelle
  imports Complex_Main "HOL-Library.Product_Lexorder" "HOL-Library.Multiset"
begin

section \<open>Parsed JSON values\<close>

text \<open>
  The value handed to \<^verbatim>\<open>harvest_records\<close> is what \<^verbatim>\<open>resp.json()\<close> returned: \<^verbatim>\<open>None\<close>,
  a \<^verbatim>\<open>bool\<close>, a number, a \<^verbatim>\<open>str\<close>, a \<^verbatim>\<open>list\<close> or a \<^verbatim>\<open>dict\<close> with string keys.
  A \<^verbatim>\<open>dict\<close> keeps its insertion order, so it is an association list, read with
  \<open>map_of\<close>; the keys of a parsed dict are pairwise distinct. No function of the engine
  computes with a number or compares two numbers, so a number is kept as a rational.
  Strings are lists of characters with codes below 256.
\<close>

datatype json =
    JNull
  | JBool bool
  | JNum rat
  | JStr string
  | JArr "json list"
  | JObj "(string \<times> json) list"

type_synonym pydict = "(string \<times> json) list"

section \<open>Key vocabularies\<close>

definition LOAN_KEYS :: "string set" where
  "LOAN_KEYS = {
     ''lender'', ''lender1'', ''lender2'', ''lenderName'', ''lenderName1'', ''lenderName2'',
     ''loanAmount'', ''amountLoan'', ''loanAmt'', ''loanType'', ''loanToValue'', ''lienType'',
     ''interestRate'', ''loanTerm'', ''loanDueDate'', ''recordingDate'', ''documentDate'',
     ''docNumber'', ''loanTypeCode'', ''lenderLastName'', ''beneficiary'', ''date'', ''term''}"

definition SALE_KEYS :: "string set" where
  "SALE_KEYS = {
     ''saleAmount'', ''salePrice'', ''price'', ''saleAmt'',
     ''deedType'', ''transferTax'', ''buyerName'', ''sellerName'', ''saleTransDate'',
     ''saleRecDate''}"

definition DATE_KEYS :: "string set" where
  "DATE_KEYS = {''documentDate'', ''recordingDate'', ''saleDate'', ''saleTransDate'',
     ''saleRecDate'', ''contractDate'', ''date''}"

section \<open>Record detector and record harvester\<close>

text \<open>\<^verbatim>\<open>len(set(d.keys()) & (LOAN_KEYS | SALE_KEYS)) > 0\<close>\<close>

definition looks_like_record :: "pydict \<Rightarrow> bool" where
  "looks_like_record d \<longleftrightarrow> card (set (map fst d) \<inter> (LOAN_KEYS \<union> SALE_KEYS)) > 0"

text \<open>
  \<^verbatim>\<open>harvest_records\<close>: a dict is appended when the detector accepts it and every one of
  its values is searched, in the order of \<^verbatim>\<open>obj.values()\<close>; a list is searched element
  by element; anything else leaves \<^verbatim>\<open>found\<close> empty.
\<close>

fun harvest_records :: "json \<Rightarrow> json list" where
  "harvest_records (JObj kvs) =
     (if looks_like_record kvs then [JObj kvs] else [])
       @ concat (map (\<lambda>kv. harvest_records (snd kv)) kvs)"
| "harvest_records (JArr xs) = concat (map harvest_records xs)"
| "harvest_records v = []"

text \<open>
  The words of the specification: the occurrences of values nested anywhere in a
  document (the document itself first), in pre-order depth-first order, each occurrence
  listed once; and the test that picks the record-like mappings among them.
\<close>

fun subvalues :: "json \<Rightarrow> json list" where
  "subvalues (JObj kvs) = JObj kvs # concat (map (\<lambda>kv. subvalues (snd kv)) kvs)"
| "subvalues (JArr xs) = JArr xs # concat (map subvalues xs)"
| "subvalues v = [v]"

fun keys_of :: "json \<Rightarrow> string set" where
  "keys_of (JObj kvs) = set (map fst kvs)"
| "keys_of v = {}"

fun is_mapping :: "json \<Rightarrow> bool" where
  "is_mapping (JObj kvs) = True"
| "is_mapping v = False"

definition record_like :: "json \<Rightarrow> bool" where
  "record_like v \<longleftrightarrow> is_mapping v \<and> keys_of v \<inter> (LOAN_KEYS \<union> SALE_KEYS) \<noteq> {}"



section \<open>Field normalizer\<close>

text \<open>
  A calendar date is (year, month, day), as \<^verbatim>\<open>datetime.date\<close> holds it (year 1 to 9999).
  \<^verbatim>\<open>date.isoformat()\<close> prints it as \<^verbatim>\<open>%04d-%02d-%02d\<close>.
\<close>

type_synonym date = "nat \<times> nat \<times> nat"

definition digit :: "nat \<Rightarrow> char" where
  "digit n = ''0123456789'' ! (n mod 10)"

definition isoformat :: "date \<Rightarrow> string" where
  "isoformat d = (case d of (y, m, dd) \<Rightarrow>
     [digit (y div 1000), digit (y div 100), digit (y div 10), digit y, CHR ''-'',
      digit (m div 10), digit m, CHR ''-'', digit (dd div 10), digit dd])"

text \<open>
  \<^verbatim>\<open>dateutil.parser.parse\<close> is a library outside the repository, so every function that
  reaches it takes it as a parameter: the parser maps a string to the calendar date of
  the \<^verbatim>\<open>datetime\<close> it returns (\<^verbatim>\<open>.date()\<close>), or to \<open>None\<close> when the call raises.
\<close>

type_synonym dateparser = "string \<Rightarrow> date option"

text \<open>
  \<^verbatim>\<open>_coerce_date\<close>: a value that is not a \<^verbatim>\<open>str\<close> is returned as it is; for a string the
  ISO form of the parsed date is returned, and the string itself when anything raised.
\<close>

fun coerce_date :: "dateparser \<Rightarrow> json \<Rightarrow> json" where
  "coerce_date P (JStr s) = (case P s of Some d \<Rightarrow> JStr (isoformat d) | None \<Rightarrow> JStr s)"
| "coerce_date P v = v"

definition colmap :: "(string \<times> string list) list" where
  "colmap = [
     (''documentDate'', [''documentDate'', ''docDate'', ''date'']),
     (''recordingDate'', [''recordingDate'', ''saleRecDate'']),
     (''recordType'', [''recordType'', ''doctype'', ''docType'', ''type'']),
     (''salePrice'', [''saleAmount'', ''salePrice'', ''price'', ''saleAmt'']),
     (''deedType'', [''deedType'']),
     (''loanAmount'', [''loanAmount'', ''amountLoan'', ''loanAmt'', ''amount'']),
     (''loanType'', [''loanType'', ''loanTypeCode'']),
     (''lienType'', [''lienType'']),
     (''interestRate'', [''interestRate'', ''rate'']),
     (''loanTerm'', [''loanTerm'', ''term'']),
     (''loanToValue'', [''loanToValue'', ''ltv'']),
     (''docNumber'', [''docNumber'', ''documentNumber'', ''trustDeedDocumentNumber'']),
     (''lenderName'', [''lender'', ''lender1'', ''lenderName'', ''lenderName1'',
                       ''lenderLastName'', ''beneficiary'']),
     (''buyerName'', [''buyerName'']),
     (''sellerName'', [''sellerName'']),
     (''saleDate'', [''saleDate'', ''saleTransDate'', ''contractDate'', ''date''])]"

text \<open>\<^verbatim>\<open>out[k] = v\<close> on an insertion-ordered dict: an existing key keeps its place.\<close>

fun dict_set :: "('k \<times> 'v) list \<Rightarrow> 'k \<Rightarrow> 'v \<Rightarrow> ('k \<times> 'v) list" where
  "dict_set [] k v = [(k, v)]"
| "dict_set ((k', v') # rest) k v =
     (if k' = k then (k, v) # rest else (k', v') # dict_set rest k v)"

text \<open>
  The inner loop \<^verbatim>\<open>for c in candidates: if c in d and d[c] not in (None, ""): ...; break\<close>.
  Among parsed JSON values only \<^verbatim>\<open>None\<close> equals \<^verbatim>\<open>None\<close> and only the empty string
  equals \<^verbatim>\<open>""\<close>.
\<close>

fun first_candidate :: "pydict \<Rightarrow> string list \<Rightarrow> json option" where
  "first_candidate d [] = None"
| "first_candidate d (c # cs) =
     (case map_of d c of
        Some v \<Rightarrow> if v \<noteq> JNull \<and> v \<noteq> JStr [] then Some v else first_candidate d cs
      | None \<Rightarrow> first_candidate d cs)"

text \<open>The outer loop \<^verbatim>\<open>for std_col, candidates in colmap.items()\<close>.\<close>

fun assign_columns :: "pydict \<Rightarrow> (string \<times> string list) list \<Rightarrow> pydict \<Rightarrow> pydict" where
  "assign_columns d [] out = out"
| "assign_columns d ((std_col, candidates) # rest) out =
     assign_columns d rest
       (case first_candidate d candidates of
          Some v \<Rightarrow> dict_set out std_col v
        | None \<Rightarrow> out)"

text \<open>
  \<^verbatim>\<open>k.lower().endswith("date")\<close>; \<^verbatim>\<open>str.lower\<close> on the characters below 256 moves
  \<^verbatim>\<open>A\<close> to \<^verbatim>\<open>Z\<close> and the accented capitals (192 to 222, without the multiplication sign
  215) up by 32.
\<close>

definition char_lower :: "char \<Rightarrow> char" where
  "char_lower c =
     (let n = (of_char c :: nat)
      in if (65 \<le> n \<and> n \<le> 90) \<or> (192 \<le> n \<and> n \<le> 222 \<and> n \<noteq> 215) then char_of (n + 32)
         else c)"

definition str_lower :: "string \<Rightarrow> string" where
  "str_lower s = map char_lower s"

definition endswith :: "string \<Rightarrow> string \<Rightarrow> bool" where
  "endswith s suffix \<longleftrightarrow>
     length suffix \<le> length s \<and> drop (length s - length suffix) s = suffix"

definition is_date_column :: "string \<Rightarrow> bool" where
  "is_date_column k \<longleftrightarrow> k \<in> DATE_KEYS \<or> endswith (str_lower k) ''date''"

text \<open>
  The second loop \<^verbatim>\<open>for k in list(out.keys())\<close>. Every \<open>k\<close> is a key of \<open>out\<close>, so the
  lookup \<^verbatim>\<open>out[k]\<close> always finds a value.
\<close>

fun coerce_columns :: "dateparser \<Rightarrow> string list \<Rightarrow> pydict \<Rightarrow> pydict" where
  "coerce_columns P [] out = out"
| "coerce_columns P (k # ks) out =
     coerce_columns P ks
       (if is_date_column k
        then (case map_of out k of Some v \<Rightarrow> dict_set out k (coerce_date P v) | None \<Rightarrow> out)
        else out)"

definition assigned :: "pydict \<Rightarrow> pydict" where
  "assigned d = assign_columns d colmap []"

definition normalize_row :: "dateparser \<Rightarrow> pydict \<Rightarrow> pydict" where
  "normalize_row P d = (let out = assigned d in coerce_columns P (map fst out) out)"

text \<open>
  The words of the specification for alias resolution: an alias qualifies when it is
  present in the record with a value that is neither null nor the empty string.
\<close>

definition qualifies :: "pydict \<Rightarrow> string \<Rightarrow> bool" where
  "qualifies d c \<longleftrightarrow> (\<exists>v. map_of d c = Some v \<and> v \<noteq> JNull \<and> v \<noteq> JStr [])"

definition canonical_fields :: "string list" where
  "canonical_fields = [''documentDate'', ''recordingDate'', ''recordType'', ''salePrice'',
     ''deedType'', ''loanAmount'', ''loanType'', ''lienType'', ''interestRate'', ''loanTerm'',
     ''loanToValue'', ''docNumber'', ''lenderName'', ''buyerName'', ''sellerName'',
     ''saleDate'']"

section \<open>Tables\<close>

text \<open>
  A \<^verbatim>\<open>pandas.DataFrame\<close> is kept row by row: the list of its column labels, and for every
  row its index label and its cells, one per column. A cell is missing (\<^verbatim>\<open>NaN\<close>,
  \<^verbatim>\<open>NaT\<close>, \<^verbatim>\<open><NA>\<close>), a Python value, or a timestamp of a \<^verbatim>\<open>datetime64\<close> column. A
  timestamp is a calendar date with the nanoseconds since midnight; the lexicographic
  order of these pairs is the chronological order.
\<close>

type_synonym timestamp = "date \<times> nat"

datatype cell = NA | Val json | Time timestamp

type_synonym row = "(string \<times> cell) list"

record frame =
  columns :: "string list"
  rows :: "(nat \<times> row) list"

definition empty_frame :: frame where
  "empty_frame = \<lparr>columns = [], rows = []\<rparr>"

text \<open>\<^verbatim>\<open>df.empty\<close>: some axis has length 0.\<close>

definition frame_empty :: "frame \<Rightarrow> bool" where
  "frame_empty df \<longleftrightarrow> columns df = [] \<or> rows df = []"

definition get_cell :: "row \<Rightarrow> string \<Rightarrow> cell" where
  "get_cell r c = (case map_of r c of Some x \<Rightarrow> x | None \<Rightarrow> NA)"

text \<open>\<^verbatim>\<open>df[c]\<close>, read for a column of the table.\<close>

definition column :: "frame \<Rightarrow> string \<Rightarrow> cell list" where
  "column df c = map (\<lambda>ir. get_cell (snd ir) c) (rows df)"

text \<open>\<^verbatim>\<open>df[c] = values\<close>: an existing column is overwritten in place, a new one is appended.\<close>

definition set_column :: "frame \<Rightarrow> string \<Rightarrow> cell list \<Rightarrow> frame" where
  "set_column df c xs =
     \<lparr>columns = (if c \<in> set (columns df) then columns df else columns df @ [c]),
      rows = map (\<lambda>(ir, x). (fst ir, dict_set (snd ir) c x)) (zip (rows df) xs)\<rparr>"

text \<open>\<^verbatim>\<open>df[mask]\<close> with a row mask computed from each row, and \<^verbatim>\<open>df[cols]\<close>.\<close>

definition filter_rows :: "(row \<Rightarrow> bool) \<Rightarrow> frame \<Rightarrow> frame" where
  "filter_rows keep df = \<lparr>columns = columns df, rows = filter (\<lambda>ir. keep (snd ir)) (rows df)\<rparr>"

definition select_columns :: "frame \<Rightarrow> string list \<Rightarrow> frame" where
  "select_columns df cs =
     \<lparr>columns = cs, rows = map (\<lambda>ir. (fst ir, map (\<lambda>c. (c, get_cell (snd ir) c)) cs)) (rows df)\<rparr>"

text \<open>\<^verbatim>\<open>isna\<close> / \<^verbatim>\<open>notna\<close>: a missing cell and \<^verbatim>\<open>None\<close> are null.\<close>

fun isna :: "cell \<Rightarrow> bool" where
  "isna NA = True"
| "isna (Val JNull) = True"
| "isna c = False"

definition notna :: "cell \<Rightarrow> bool" where
  "notna c \<longleftrightarrow> \<not> isna c"

text \<open>
  \<^verbatim>\<open>pd.DataFrame(rows)\<close> for a list of dicts: the columns are the keys in the order of their
  first appearance, the index is \<^verbatim>\<open>0 .. n-1\<close>, and a key a row lacks gives a missing cell.
\<close>

definition DataFrame :: "pydict list \<Rightarrow> frame" where
  "DataFrame rs =
     (let cols = rev (remdups (rev (concat (map (map fst) rs))))
      in \<lparr>columns = cols,
          rows = map (\<lambda>(i, r). (i, map (\<lambda>c. (c, case map_of r c of Some v \<Rightarrow> Val v | None \<Rightarrow> NA)) cols))
                   (enumerate 0 rs)\<rparr>)"

text \<open>
  \<^verbatim>\<open>pd.to_datetime(column, errors="coerce")\<close> is a library outside the repository. With
  \<^verbatim>\<open>errors="coerce"\<close> it returns a \<^verbatim>\<open>datetime64\<close> column of the same length: a null stays
  null, a timestamp stays as it is, and every other value becomes a timestamp or, when it
  cannot be read, \<^verbatim>\<open>NaT\<close>. How a value is read (it may depend on the whole column, whose
  first values fix the format) is the parameter \<open>T\<close>: \<open>T col v\<close> is the timestamp read
  from \<open>v\<close> in the column \<open>col\<close>, or \<open>None\<close>.
\<close>

type_synonym datetime_reader = "cell list \<Rightarrow> json \<Rightarrow> timestamp option"

definition to_datetime :: "datetime_reader \<Rightarrow> cell list \<Rightarrow> cell list" where
  "to_datetime T col =
     map (\<lambda>c. case c of
            NA \<Rightarrow> NA
          | Time t \<Rightarrow> Time t
          | Val v \<Rightarrow> (if v = JNull then NA
                      else case T col v of Some t \<Rightarrow> Time t | None \<Rightarrow> NA)) col"

section \<open>Table builder\<close>

text \<open>
  \<^verbatim>\<open>str.strip()\<close> removes leading and trailing whitespace; below 256 the whitespace
  characters are 9 to 13, 28 to 32, 133 and 160.
\<close>

definition is_space :: "char \<Rightarrow> bool" where
  "is_space c \<longleftrightarrow> (of_char c :: nat) \<in> {9, 10, 11, 12, 13, 28, 29, 30, 31, 32, 133, 160}"

definition strip :: "string \<Rightarrow> string" where
  "strip s = rev (dropWhile is_space (rev (dropWhile is_space s)))"

text \<open>
  The truth value of \<^verbatim>\<open>str(v).strip()\<close>. \<^verbatim>\<open>str\<close> of a string is the string; \<^verbatim>\<open>str\<close> of
  \<^verbatim>\<open>None\<close>, a bool, a number, a list or a dict is never blank (\<^verbatim>\<open>None\<close>, \<^verbatim>\<open>True\<close>,
  digits, brackets).
\<close>

fun str_strip_nonempty :: "json \<Rightarrow> bool" where
  "str_strip_nonempty (JStr s) = (strip s \<noteq> [])"
| "str_strip_nonempty v = True"

text \<open>The first two lines of \<^verbatim>\<open>make_dataframe\<close>: the rows that are kept.\<close>

definition kept_rows :: "dateparser \<Rightarrow> pydict list \<Rightarrow> pydict list" where
  "kept_rows P records =
     filter (\<lambda>r. list_ex str_strip_nonempty (map snd r)) (map (normalize_row P) records)"

definition make_dataframe :: "dateparser \<Rightarrow> datetime_reader \<Rightarrow> pydict list \<Rightarrow> frame" where
  "make_dataframe P T records =
     (let rows = kept_rows P records
      in if rows = [] then empty_frame
         else fold (\<lambda>col df. if col \<in> set (columns df)
                              then set_column df col (to_datetime T (column df col))
                              else df)
                [''documentDate'', ''recordingDate'', ''saleDate''] (DataFrame rows))"

section \<open>Focus view builder\<close>

definition loan_type_labels :: "(string \<times> string) list" where
  "loan_type_labels = [(''CONV'', ''Conventional''), (''FHA'', ''FHA''), (''VA'', ''VA''),
     (''HELOC'', ''HELOC'')]"

text \<open>\<^verbatim>\<open>Series.replace(dict)\<close>: a cell equal to a key is replaced by the key's value.\<close>

fun replace_codes :: "cell \<Rightarrow> cell" where
  "replace_codes (Val (JStr s)) =
     (case map_of loan_type_labels s of Some t \<Rightarrow> Val (JStr t) | None \<Rightarrow> Val (JStr s))"
| "replace_codes c = c"

text \<open>\<^verbatim>\<open>.dt.year\<close> and \<^verbatim>\<open>.dt.date.astype("string")\<close> on a \<^verbatim>\<open>datetime64\<close> column.\<close>

fun dt_year :: "cell \<Rightarrow> cell" where
  "dt_year (Time t) = Val (JNum (of_nat (fst (fst t))))"
| "dt_year c = NA"

fun dt_date_string :: "cell \<Rightarrow> cell" where
  "dt_date_string (Time t) = Val (JStr (isoformat (fst t)))"
| "dt_date_string c = NA"

fun timestamp_of :: "cell \<Rightarrow> timestamp option" where
  "timestamp_of (Time t) = Some t"
| "timestamp_of c = None"

text \<open>
  \<^verbatim>\<open>sort_values(by=[c], ascending=False)\<close> with the default \<^verbatim>\<open>na_position="last"\<close>, as
  pandas computes it: the rows with a key are reversed, sorted ascending and reversed
  again, and the rows without a key follow in their original order. The order pandas
  gives to rows with equal keys is not fixed by its default sorting method; here they keep
  their original order.
\<close>

definition sort_values_desc :: "('a \<Rightarrow> timestamp option) \<Rightarrow> 'a list \<Rightarrow> 'a list" where
  "sort_values_desc key xs =
     (let non_nans = filter (\<lambda>x. key x \<noteq> None) xs;
          nans = filter (\<lambda>x. key x = None) xs
      in rev (sort_key (\<lambda>x. the (key x)) (rev non_nans)) @ nans)"

text \<open>The columns of the view, as \<^verbatim>\<open>make_focus_loans_table\<close> adds them.\<close>

definition focus_columns :: "datetime_reader \<Rightarrow> frame \<Rightarrow> string \<Rightarrow> frame" where
  "focus_columns T df best_date =
     (let view = \<lparr>columns = [], rows = map (\<lambda>ir. (fst ir, [])) (rows df)\<rparr>;
          view = set_column view ''Purchase Date'' (to_datetime T (column df best_date));
          view = (if ''loanType'' \<in> set (columns df)
                  then set_column view ''Loan Type'' (map replace_codes (column df ''loanType''))
                  else view)
      in if ''lenderName'' \<in> set (columns df)
         then set_column view ''Lender Name'' (column df ''lenderName'')
         else view)"

text \<open>The retention filter: the \<^verbatim>\<open>if\<close> / \<^verbatim>\<open>elif\<close> / \<^verbatim>\<open>elif\<close> chain, which has no \<^verbatim>\<open>else\<close>.\<close>

definition focus_filter :: "frame \<Rightarrow> frame" where
  "focus_filter view =
     (if ''Loan Type'' \<in> set (columns view) \<and> ''Lender Name'' \<in> set (columns view)
      then filter_rows (\<lambda>r. notna (get_cell r ''Loan Type'') \<or> notna (get_cell r ''Lender Name'')) view
      else if ''Loan Type'' \<in> set (columns view)
      then filter_rows (\<lambda>r. notna (get_cell r ''Loan Type'')) view
      else if ''Lender Name'' \<in> set (columns view)
      then filter_rows (\<lambda>r. notna (get_cell r ''Lender Name'')) view
      else view)"

text \<open>The view with its year column, sorted: before the columns are put in order.\<close>

definition focus_sorted :: "frame \<Rightarrow> frame" where
  "focus_sorted view =
     (let view = set_column view ''Year'' (map dt_year (column view ''Purchase Date''))
      in \<lparr>columns = columns view,
          rows = sort_values_desc (\<lambda>ir. timestamp_of (get_cell (snd ir) ''Purchase Date''))
                   (rows view)\<rparr>)"

definition best_date_column :: "frame \<Rightarrow> string option" where
  "best_date_column df =
     find (\<lambda>c. c \<in> set (columns df)) [''saleDate'', ''documentDate'', ''recordingDate'']"

text \<open>The last lines: the columns in their final order, the date printed as a string.\<close>

definition focus_output :: "frame \<Rightarrow> frame" where
  "focus_output view =
     (let ordered_cols = filter (\<lambda>c. c \<in> set (columns view))
                           [''Year'', ''Purchase Date'', ''Loan Type'', ''Lender Name''];
          view = select_columns view ordered_cols
      in if ''Purchase Date'' \<in> set (columns view)
         then set_column view ''Purchase Date''
                (map dt_date_string (column view ''Purchase Date''))
         else view)"

definition make_focus_loans_table :: "datetime_reader \<Rightarrow> frame \<Rightarrow> frame" where
  "make_focus_loans_table T df =
     (if frame_empty df then df
      else case best_date_column df of
        None \<Rightarrow> \<lparr>columns = [''Purchase Date'', ''Year'', ''Loan Type'', ''Lender Name''], rows = []\<rparr>
      | Some best_date \<Rightarrow>
          (let view = focus_filter (focus_columns T df best_date)
           in if frame_empty view then view
              else focus_output (focus_sorted view)))"

text \<open>
  The retention test on a row of the table, by the columns the table has: the test the
  filter of the view applies, read on the table's own columns.
\<close>

definition retained :: "frame \<Rightarrow> row \<Rightarrow> bool" where
  "retained df r =
     (if ''loanType'' \<in> set (columns df) \<and> ''lenderName'' \<in> set (columns df)
      then notna (get_cell r ''loanType'') \<or> notna (get_cell r ''lenderName'')
      else if ''loanType'' \<in> set (columns df) then notna (get_cell r ''loanType'')
      else if ''lenderName'' \<in> set (columns df) then notna (get_cell r ''lenderName'')
      else True)"



text \<open>
  The column \<open>c\<close> of the kept rows before any date typing: the value a row holds under
  \<open>c\<close>, or a missing cell.
\<close>

definition raw_column :: "pydict list \<Rightarrow> string \<Rightarrow> cell list" where
  "raw_column rs c = map (\<lambda>r. case map_of r c of Some v \<Rightarrow> Val v | None \<Rightarrow> NA) rs"

text \<open>
  The harvester returns the mappings themselves; \<open>dict_of\<close> reads such a value as the
  dict it is.
\<close>

fun dict_of :: "json \<Rightarrow> pydict" where
  "dict_of (JObj kvs) = kvs"
| "dict_of v = []"

text \<open>The sample document of the end-to-end property.\<close>

definition sample_document :: json where
  "sample_document =
     JObj [(''property'',
            JObj [(''salehistory'',
                   JArr [JObj [(''amountLoan'', JNum 250000), (''loanTypeCode'', JStr ''CONV''),
                               (''lender1'', JStr ''Acme Bank''),
                               (''saleTransDate'', JStr ''2019-07-01'')]])])]"

text \<open>
  Stand-ins for the two library readers, for the examples: what the readers return
  for the few strings the examples use.
\<close>

definition sample_parser :: dateparser where
  "sample_parser s =
     (if s = ''2019-07-01'' then Some (2019, 7, 1)
      else if s = ''March 3, 2020'' \<or> s = ''2020-03-03'' \<or> s = ''03/03/2020''
      then Some (2020, 3, 3)
      else None)"

definition sample_reader :: datetime_reader where
  "sample_reader col v =
     (case v of JStr s \<Rightarrow> map_option (\<lambda>d. (d, 0)) (sample_parser s) | _ \<Rightarrow> None)"

text \<open>
  Auxiliary functions for the proofs: one step of each loop of \<open>_normalize_row\<close>, one
  step of the date-typing loop of \<open>make_dataframe\<close>, and the columns that loop visits.
\<close>

definition pick :: "pydict \<Rightarrow> string \<times> string list \<Rightarrow> (string \<times> json) option" where
  "pick d e = map_option (Pair (fst e)) (first_candidate d (snd e))"

definition coerce_entry :: "dateparser \<Rightarrow> string \<times> json \<Rightarrow> string \<times> json" where
  "coerce_entry P e = (fst e, if is_date_column (fst e) then coerce_date P (snd e) else snd e)"

definition type_date_column :: "datetime_reader \<Rightarrow> string \<Rightarrow> frame \<Rightarrow> frame" where
  "type_date_column T col df =
     (if col \<in> set (columns df) then set_column df col (to_datetime T (column df col)) else df)"

definition date_columns :: "string list" where
  "date_columns = [''documentDate'', ''recordingDate'', ''saleDate'']"

text \<open>Sample records and the table built from them with the stand-in readers.\<close>

definition sample_records :: "pydict list" where
  "sample_records =
     [[(''saleTransDate'', JStr ''2019-07-01''), (''lender'', JStr ''Acme'')],
      [(''saleTransDate'', JStr ''2020-03-03''), (''price'', JNum 3)],
      [(''date'', JStr ''2020-03-03''), (''loanTypeCode'', JStr ''FHA'')],
      [(''saleTransDate'', JStr ''never''), (''lender'', JStr ''Last'')]]"

definition sale_only_records :: "pydict list" where
  "sale_only_records = [[(''saleTransDate'', JStr ''2019-07-01''), (''price'', JNum 3)]]"

definition undated_loan_records :: "pydict list" where
  "undated_loan_records = [[(''loanType'', JStr ''FHA''), (''price'', JNum 3)]]"

definition sample_table :: frame where
  "sample_table =
     \<lparr>columns = [''lenderName'', ''saleDate'', ''salePrice'', ''documentDate'', ''loanType''],
      rows =
        [(0, [(''lenderName'', Val (JStr ''Acme'')), (''saleDate'', Time ((2019, 7, 1), 0)),
              (''salePrice'', NA), (''documentDate'', NA), (''loanType'', NA)]),
         (1, [(''lenderName'', NA), (''saleDate'', Time ((2020, 3, 3), 0)),
              (''salePrice'', Val (JNum 3)), (''documentDate'', NA), (''loanType'', NA)]),
         (2, [(''lenderName'', NA), (''saleDate'', Time ((2020, 3, 3), 0)),
              (''salePrice'', NA), (''documentDate'', Time ((2020, 3, 3), 0)),
              (''loanType'', Val (JStr ''FHA''))]),
         (3, [(''lenderName'', Val (JStr ''Last'')), (''saleDate'', NA),
              (''salePrice'', NA), (''documentDate'', NA), (''loanType'', NA)])]\<rparr>"

section \<open>Harvesting: soundness, completeness, order\<close>

lemma finite_vocabulary: "finite (LOAN_KEYS \<union> SALE_KEYS)"
  by (simp add: LOAN_KEYS_def SALE_KEYS_def)

lemma looks_like_record_iff:
  "looks_like_record d \<longleftrightarrow> set (map fst d) \<inter> (LOAN_KEYS \<union> SALE_KEYS) \<noteq> {}"
  unfolding looks_like_record_def
  by (simp add: card_gt_0_iff)

lemma record_like_JObj: "record_like (JObj kvs) \<longleftrightarrow> looks_like_record kvs"
  by (simp add: record_like_def looks_like_record_iff)

lemma record_like_other:
  "record_like JNull = False" "record_like (JBool b) = False"
  "record_like (JNum n) = False" "record_like (JStr s) = False"
  "record_like (JArr xs) = False"
  by (simp_all add: record_like_def)

lemma harvest_is_filter: "harvest_records D = filter record_like (subvalues D)"
proof (induction D rule: harvest_records.induct)
  case (1 kvs)
  have "concat (map (\<lambda>kv. harvest_records (snd kv)) kvs)
      = concat (map (\<lambda>kv. filter record_like (subvalues (snd kv))) kvs)"
    using 1 by (auto intro!: arg_cong [where f = concat])
  then show ?case
    by (simp add: record_like_JObj filter_concat comp_def)
next
  case (2 xs)
  have "concat (map harvest_records xs)
      = concat (map (\<lambda>x. filter record_like (subvalues x)) xs)"
    using 2 by (auto intro!: arg_cong [where f = concat])
  then show ?case
    by (simp add: record_like_other filter_concat comp_def)
qed (simp_all add: record_like_other)

lemma count_list_filter_keep:
  "P v \<Longrightarrow> count_list (filter P xs) v = count_list xs v"
  by (induction xs) auto

text \<open>
  C1. For every JSON value \<open>D\<close>, \<open>harvest_records D\<close> is exactly the list of the mappings
  nested anywhere in \<open>D\<close> (\<open>D\<close> itself included) whose key set meets the union of the loan
  and sale vocabularies: the result is the pre-order list of all nested values with
  everything but the record-like mappings removed, so each record-like occurrence is
  there once, as the original mapping, in encounter order; every returned value is a
  mapping that \<open>looks_like_record\<close> accepts; a scalar or null yields nothing.
\<close>

theorem harvest_records_exact:
  "harvest_records D = filter record_like (subvalues D)
   \<and> (\<forall>v \<in> set (harvest_records D). \<exists>kvs. v = JObj kvs \<and> looks_like_record kvs
          \<and> set (map fst kvs) \<inter> (LOAN_KEYS \<union> SALE_KEYS) \<noteq> {})
   \<and> (\<forall>v \<in> set (subvalues D). record_like v \<longrightarrow>
          count_list (harvest_records D) v = count_list (subvalues D) v)
   \<and> harvest_records JNull = [] \<and> harvest_records (JBool b) = []
   \<and> harvest_records (JNum n) = [] \<and> harvest_records (JStr s) = []"
proof -
  have eq: "harvest_records D = filter record_like (subvalues D)"
    by (rule harvest_is_filter)
  have sound: "\<forall>v \<in> set (harvest_records D). \<exists>kvs. v = JObj kvs \<and> looks_like_record kvs
          \<and> set (map fst kvs) \<inter> (LOAN_KEYS \<union> SALE_KEYS) \<noteq> {}"
  proof
    fix v assume "v \<in> set (harvest_records D)"
    then have r: "record_like v" by (simp add: eq)
    then obtain kvs where v: "v = JObj kvs"
      by (cases v) (simp_all add: record_like_other)
    with r have "looks_like_record kvs" by (simp add: record_like_JObj)
    with v show "\<exists>kvs. v = JObj kvs \<and> looks_like_record kvs
          \<and> set (map fst kvs) \<inter> (LOAN_KEYS \<union> SALE_KEYS) \<noteq> {}"
      by (auto simp: looks_like_record_iff)
  qed
  have cnt: "\<forall>v \<in> set (subvalues D). record_like v \<longrightarrow>
          count_list (harvest_records D) v = count_list (subvalues D) v"
    by (simp add: eq count_list_filter_keep)
  show ?thesis using eq sound cnt by simp
qed

theorem harvest_records_exact_witness:
  "harvest_records
     (JObj [(''status'', JNull),
            (''property'', JArr [JObj [(''lender1'', JStr ''Acme''), (''n'', JNum 1),
                                      (''sale'', JObj [(''price'', JNum 5)])],
                                JStr ''x'',
                                JObj [(''other'', JBool True)]])])
   = [JObj [(''lender1'', JStr ''Acme''), (''n'', JNum 1), (''sale'', JObj [(''price'', JNum 5)])],
      JObj [(''price'', JNum 5)]]"
  (is "harvest_records ?D = ?R")
proof -
  have a: "harvest_records ?D = filter record_like (subvalues ?D)"
    using harvest_records_exact [of ?D] by (rule conjunct1)
  have b: "filter record_like (subvalues ?D) = ?R"
    by (simp add: record_like_def LOAN_KEYS_def SALE_KEYS_def)
  show ?thesis using a b by simp
qed

section \<open>Field normalizer: alias resolution and date coercion\<close>


lemma map_of_dict_set:
  "map_of (dict_set out k v) k' = (if k' = k then Some v else map_of out k')"
  by (induction out k v rule: dict_set.induct) auto

lemma dict_set_fresh:
  "k \<notin> set (map fst out) \<Longrightarrow> dict_set out k v = out @ [(k, v)]"
  by (induction out k v rule: dict_set.induct) auto

lemma dict_set_middle:
  "k \<notin> set (map fst pre) \<Longrightarrow> dict_set (pre @ (k, v) # rest) k v' = pre @ (k, v') # rest"
  by (induction pre) auto

lemma assign_columns_append:
  "distinct (map fst cm) \<Longrightarrow> set (map fst cm) \<inter> set (map fst out) = {} \<Longrightarrow>
   assign_columns d cm out = out @ List.map_filter (pick d) cm"
proof (induction cm arbitrary: out)
  case Nil
  then show ?case by (simp add: map_filter_simps)
next
  case (Cons e cm)
  obtain f cands where e: "e = (f, cands)" by (cases e)
  show ?case
  proof (cases "first_candidate d cands")
    case None
    with Cons e show ?thesis by (simp add: map_filter_simps pick_def)
  next
    case (Some v)
    have fresh: "f \<notin> set (map fst out)" using Cons.prems e by auto
    have "set (map fst cm) \<inter> set (map fst (out @ [(f, v)])) = {}"
      using Cons.prems e by auto
    with Cons e Some fresh show ?thesis
      by (simp add: map_filter_simps pick_def dict_set_fresh)
  qed
qed

lemma coerce_columns_map:
  "distinct (map fst (pre @ rest)) \<Longrightarrow>
   coerce_columns P (map fst rest) (pre @ rest) = pre @ map (coerce_entry P) rest"
proof (induction rest arbitrary: pre)
  case Nil
  then show ?case by simp
next
  case (Cons e rest)
  obtain k v where e: "e = (k, v)" by (cases e)
  have k: "k \<notin> set (map fst pre)" using Cons.prems e by auto
  then have look: "map_of (pre @ (k, v) # rest) k = Some v"
    by (simp add: map_of_append map_add_def map_of_eq_None_iff [THEN iffD2] image_iff)
  have d': "distinct (map fst ((pre @ [(k, w)]) @ rest))" for w
    using Cons.prems e by auto
  show ?case
    using Cons.IH [OF d'] e look k
    by (simp add: coerce_entry_def dict_set_middle)
qed

lemma distinct_colmap: "distinct (map fst colmap)"
  by (simp add: colmap_def)

lemma assigned_eq: "assigned d = List.map_filter (pick d) colmap"
  using assign_columns_append [of colmap "[]" d] distinct_colmap
  by (simp add: assigned_def)


lemma keys_map_filter_pick:
  "map fst (List.map_filter (pick d) cm)
     = map fst (filter (\<lambda>e. first_candidate d (snd e) \<noteq> None) cm)"
  by (induction cm) (auto simp: map_filter_simps pick_def)

lemma map_of_map_filter_pick:
  "distinct (map fst cm) \<Longrightarrow> (f, cands) \<in> set cm \<Longrightarrow>
   map_of (List.map_filter (pick d) cm) f = first_candidate d cands"
proof (induction cm)
  case Nil
  then show ?case by simp
next
  case (Cons e cm)
  show ?case
  proof (cases "e = (f, cands)")
    case True
    have nf: "f \<notin> set (map fst (filter (\<lambda>e. first_candidate d (snd e) \<noteq> None) cm))"
      using Cons.prems True by auto
    have "f \<notin> set (map fst (List.map_filter (pick d) cm))"
      using nf unfolding keys_map_filter_pick .
    then have "map_of (List.map_filter (pick d) cm) f = None"
      by (simp add: map_of_eq_None_iff)
    moreover have "pick d e = map_option (Pair f) (first_candidate d cands)"
      using True by (simp add: pick_def)
    ultimately show ?thesis
      by (cases "first_candidate d cands") (simp_all add: map_filter_simps)
  next
    case False
    with Cons.prems have mem: "(f, cands) \<in> set cm" and ne: "fst e \<noteq> f"
      by (auto simp: image_iff)
    have "pick d e = map_option (Pair (fst e)) (first_candidate d (snd e))"
      by (simp add: pick_def)
    with Cons mem ne show ?thesis
      by (cases "first_candidate d (snd e)") (simp_all add: map_filter_simps)
  qed
qed

lemma assigned_lookup:
  "(f, cands) \<in> set colmap \<Longrightarrow> map_of (assigned d) f = first_candidate d cands"
  by (simp add: assigned_eq map_of_map_filter_pick distinct_colmap)

lemma assigned_keys:
  "map fst (assigned d) = map fst (filter (\<lambda>e. first_candidate d (snd e) \<noteq> None) colmap)"
  by (simp add: assigned_eq keys_map_filter_pick)

lemma distinct_assigned: "distinct (map fst (assigned d))"
  by (simp add: assigned_keys distinct_map_filter distinct_colmap)

lemma normalize_row_eq: "normalize_row P d = map (coerce_entry P) (assigned d)"
  using coerce_columns_map [of "[]" "assigned d" P] distinct_assigned
  by (simp add: normalize_row_def)

lemma normalize_row_keys: "map fst (normalize_row P d) = map fst (assigned d)"
  by (simp add: normalize_row_eq coerce_entry_def comp_def)

lemma map_of_coerce_entry:
  "map_of (map (coerce_entry P) out) k
     = map_option (\<lambda>v. if is_date_column k then coerce_date P v else v) (map_of out k)"
  by (induction out) (auto simp: coerce_entry_def)

lemma normalize_row_lookup:
  "map_of (normalize_row P d) k
     = map_option (\<lambda>v. if is_date_column k then coerce_date P v else v) (map_of (assigned d) k)"
  by (simp add: normalize_row_eq map_of_coerce_entry)

lemma first_candidate_None:
  "first_candidate d cs = None \<longleftrightarrow> (\<forall>c \<in> set cs. \<not> qualifies d c)"
  by (induction cs) (auto simp: qualifies_def split: option.splits)

lemma first_candidate_first:
  "i < length cs \<Longrightarrow> qualifies d (cs ! i) \<Longrightarrow> \<forall>j < i. \<not> qualifies d (cs ! j) \<Longrightarrow>
   first_candidate d cs = map_of d (cs ! i)"
proof (induction cs arbitrary: i)
  case Nil
  then show ?case by simp
next
  case (Cons c cs)
  show ?case
  proof (cases i)
    case 0
    with Cons.prems show ?thesis by (auto simp: qualifies_def)
  next
    case (Suc k)
    with Cons.prems have nq: "\<not> qualifies d c" by auto
    have "\<forall>j < k. \<not> qualifies d (cs ! j)"
      using Cons.prems Suc by auto
    with Cons Suc have "first_candidate d cs = map_of d (cs ! k)" by simp
    with nq Suc show ?thesis by (auto simp: qualifies_def split: option.splits)
  qed
qed

lemma first_candidate_ok:
  "first_candidate d cs = Some v \<Longrightarrow> v \<noteq> JNull \<and> v \<noteq> JStr []"
  by (induction cs) (auto split: option.splits if_splits)

text \<open>
  C2. For every input mapping and every canonical field (an entry of \<open>colmap\<close>),
  \<open>_normalize_row\<close> assigns the value of the first alias, in the priority order of the
  field's alias list, that is present with a value that is neither null nor the empty
  string, whatever later aliases hold; the final row holds that value (passed through date
  coercion when the field is a date column). A field none of whose aliases qualifies is
  not a key of the output at all.
\<close>

theorem normalize_row_first_match:
  assumes "(f, cands) \<in> set colmap"
  shows "(\<forall>i < length cands.
            qualifies d (cands ! i) \<and> (\<forall>j < i. \<not> qualifies d (cands ! j)) \<longrightarrow>
              map_of (assigned d) f = map_of d (cands ! i)
            \<and> map_of (normalize_row P d) f
                = map_option (\<lambda>v. if is_date_column f then coerce_date P v else v)
                    (map_of d (cands ! i)))
       \<and> ((\<forall>c \<in> set cands. \<not> qualifies d c) \<longrightarrow>
            f \<notin> set (map fst (assigned d)) \<and> f \<notin> set (map fst (normalize_row P d))
            \<and> map_of (normalize_row P d) f = None)"
proof (intro conjI allI impI)
  fix i
  assume i: "i < length cands"
    and q: "qualifies d (cands ! i) \<and> (\<forall>j < i. \<not> qualifies d (cands ! j))"
  then have fc: "first_candidate d cands = map_of d (cands ! i)"
    by (simp add: first_candidate_first)
  with assms show a: "map_of (assigned d) f = map_of d (cands ! i)"
    by (simp add: assigned_lookup)
  then show "map_of (normalize_row P d) f
      = map_option (\<lambda>v. if is_date_column f then coerce_date P v else v) (map_of d (cands ! i))"
    by (simp add: normalize_row_lookup)
next
  assume "\<forall>c \<in> set cands. \<not> qualifies d c"
  then have "first_candidate d cands = None" by (simp add: first_candidate_None)
  with assms have n: "map_of (assigned d) f = None" by (simp add: assigned_lookup)
  then show a: "f \<notin> set (map fst (assigned d))"
    by (simp add: map_of_eq_None_iff)
  show "f \<notin> set (map fst (normalize_row P d))"
    using a unfolding normalize_row_keys .
  show "map_of (normalize_row P d) f = None"
    using n by (simp add: normalize_row_lookup)
qed


lemma isoformat_nonempty: "isoformat dt \<noteq> []"
  by (cases dt) (simp add: isoformat_def)

lemma coerce_date_keeps_value:
  "v \<noteq> JNull \<Longrightarrow> v \<noteq> JStr [] \<Longrightarrow> coerce_date P v \<noteq> JNull \<and> coerce_date P v \<noteq> JStr []"
  by (cases v) (auto simp: isoformat_nonempty split: option.splits)

lemma assigned_entry:
  assumes "(k, v) \<in> set (assigned d)"
  shows "k \<in> set (map fst colmap) \<and> v \<noteq> JNull \<and> v \<noteq> JStr []"
proof -
  have "map_of (assigned d) k = Some v"
    using assms distinct_assigned by simp
  moreover have "k \<in> set (map fst (assigned d))" using assms by force
  then have kc: "k \<in> set (map fst colmap)" unfolding assigned_keys by auto
  then obtain cands where "(k, cands) \<in> set colmap" by auto
  ultimately have "first_candidate d cands = Some v" by (simp add: assigned_lookup)
  then show ?thesis using kc first_candidate_ok by blast
qed

lemma canonical_fields_colmap: "map fst colmap = canonical_fields"
  by (simp add: colmap_def canonical_fields_def)

lemma date_columns_canonical:
  "filter is_date_column canonical_fields = [''documentDate'', ''recordingDate'', ''saleDate'']"
  by code_simp

text \<open>
  C10. For every input mapping, every key of the output of \<open>_normalize_row\<close> is one of
  the 16 canonical field names of the alias table and every value is neither null nor the
  empty string.
\<close>

theorem normalize_row_range:
  "(\<forall>kv \<in> set (normalize_row P d).
       fst kv \<in> set canonical_fields \<and> snd kv \<noteq> JNull \<and> snd kv \<noteq> JStr [])
   \<and> length canonical_fields = 16 \<and> distinct canonical_fields
   \<and> map fst colmap = canonical_fields"
proof -
  have "fst kv \<in> set canonical_fields \<and> snd kv \<noteq> JNull \<and> snd kv \<noteq> JStr []"
    if "kv \<in> set (normalize_row P d)" for kv
  proof -
    from that obtain k v where kv: "kv = coerce_entry P (k, v)" and a: "(k, v) \<in> set (assigned d)"
      by (auto simp: normalize_row_eq)
    from assigned_entry [OF a] have k: "k \<in> set canonical_fields"
      and v: "v \<noteq> JNull" "v \<noteq> JStr []"
      by (simp_all add: canonical_fields_colmap)
    from coerce_date_keeps_value [OF v] k v kv show ?thesis
      by (simp add: coerce_entry_def)
  qed
  moreover have "length canonical_fields = 16" "distinct canonical_fields"
    by (simp_all add: canonical_fields_def)
  ultimately show ?thesis using canonical_fields_colmap by blast
qed

theorem normalize_row_range_witness:
  "normalize_row (\<lambda>s. if s = ''2019-07-01'' then Some (2019, 7, 1) else None)
     [(''lender'', JStr []), (''saleTransDate'', JStr ''2019-07-01''), (''price'', JNum 5),
      (''buyerName'', JNull), (''junk'', JBool True)]
   = [(''salePrice'', JNum 5), (''saleDate'', JStr ''2019-07-01'')]
   \<and> ''salePrice'' \<in> set canonical_fields \<and> ''saleDate'' \<in> set canonical_fields"
  (is "normalize_row ?P ?d = ?r \<and> ?Q")
proof -
  have r: "normalize_row ?P ?d = ?r"
    by code_simp
  have "\<forall>kv \<in> set (normalize_row ?P ?d).
       fst kv \<in> set canonical_fields \<and> snd kv \<noteq> JNull \<and> snd kv \<noteq> JStr []"
    using normalize_row_range [of ?P ?d] by (rule conjunct1)
  then have "\<forall>kv \<in> set ?r.
       fst kv \<in> set canonical_fields \<and> snd kv \<noteq> JNull \<and> snd kv \<noteq> JStr []"
    by (simp only: r)
  then have ?Q by simp
  with r show ?thesis by (rule conjI)
qed

theorem normalize_row_first_match_witness:
  "(''lenderName'', [''lender'', ''lender1'', ''lenderName'', ''lenderName1'',
                     ''lenderLastName'', ''beneficiary'']) \<in> set colmap
   \<and> map_of (normalize_row (\<lambda>s. None)
        [(''lenderName1'', JStr ''Third Bank''), (''lender'', JStr []),
         (''lender1'', JStr ''Acme Bank''), (''beneficiary'', JStr ''Last'')]) ''lenderName''
     = Some (JStr ''Acme Bank'')
   \<and> ''buyerName'' \<notin> set (map fst (normalize_row (\<lambda>s. None)
        [(''lenderName1'', JStr ''Third Bank''), (''lender'', JStr []),
         (''lender1'', JStr ''Acme Bank''), (''beneficiary'', JStr ''Last'')]))"
  (is "(?f, ?cands) \<in> set colmap \<and> map_of (normalize_row ?P ?d) ?f = ?r \<and> ?g \<notin> ?K")
proof -
  have mem: "(?f, ?cands) \<in> set colmap" by (simp add: colmap_def)
  have q: "qualifies ?d (?cands ! 1) \<and> (\<forall>j < 1. \<not> qualifies ?d (?cands ! j))"
    by (simp add: qualifies_def)
  have nd: "\<not> is_date_column ?f" by code_simp
  have len: "(1::nat) < length ?cands" by simp
  from normalize_row_first_match [OF mem, of ?d ?P] len q
  have "map_of (normalize_row ?P ?d) ?f
                = map_option (\<lambda>v. if is_date_column ?f then coerce_date ?P v else v)
                    (map_of ?d (?cands ! 1))"
    by blast
  with nd have a: "map_of (normalize_row ?P ?d) ?f = ?r" by simp
  have memb: "(?g, [''buyerName'']) \<in> set colmap" by (simp add: colmap_def)
  have nq: "\<forall>c \<in> set [''buyerName'']. \<not> qualifies ?d c" by (simp add: qualifies_def)
  from normalize_row_first_match [OF memb, of ?d ?P] nq have b: "?g \<notin> ?K" by blast
  from mem a b show ?thesis by blast
qed

text \<open>
  C3. Date coercion is applied to every assigned canonical field whose name is in the
  date-key vocabulary or ends, case-insensitively, with \<open>date\<close>, and to no other. It is a
  total function: a string the parser accepts is replaced by the ISO-8601 form of its
  calendar date, a string the parser rejects and a value that is not a string are left as
  they are. With the parser reading each of \<open>March 3, 2020\<close>, \<open>2020-03-03\<close> and
  \<open>03/03/2020\<close> as 3 March 2020 the result is \<open>2020-03-03\<close>, and \<open>not a date\<close>, which
  the parser rejects, stays unchanged.
\<close>

theorem coerce_date_applied:
  "(\<forall>k v. map_of (assigned d) k = Some v \<longrightarrow>
       map_of (normalize_row P d) k
         = Some (if k \<in> DATE_KEYS \<or> endswith (str_lower k) ''date'' then coerce_date P v else v))
   \<and> map fst (normalize_row P d) = map fst (assigned d)
   \<and> (\<forall>s dt. P s = Some dt \<longrightarrow> coerce_date P (JStr s) = JStr (isoformat dt))
   \<and> (\<forall>s. P s = None \<longrightarrow> coerce_date P (JStr s) = JStr s)
   \<and> (\<forall>v. (\<forall>s. v \<noteq> JStr s) \<longrightarrow> coerce_date P v = v)
   \<and> (P ''March 3, 2020'' = Some (2020, 3, 3) \<longrightarrow>
        coerce_date P (JStr ''March 3, 2020'') = JStr ''2020-03-03'')
   \<and> (P ''2020-03-03'' = Some (2020, 3, 3) \<longrightarrow>
        coerce_date P (JStr ''2020-03-03'') = JStr ''2020-03-03'')
   \<and> (P ''03/03/2020'' = Some (2020, 3, 3) \<longrightarrow>
        coerce_date P (JStr ''03/03/2020'') = JStr ''2020-03-03'')
   \<and> (P ''not a date'' = None \<longrightarrow>
        coerce_date P (JStr ''not a date'') = JStr ''not a date'')"
proof -
  have iso: "isoformat (2020, 3, 3) = ''2020-03-03''"
    by (simp add: isoformat_def digit_def)
  have a: "\<forall>k v. map_of (assigned d) k = Some v \<longrightarrow>
       map_of (normalize_row P d) k
         = Some (if k \<in> DATE_KEYS \<or> endswith (str_lower k) ''date'' then coerce_date P v else v)"
    by (simp add: normalize_row_lookup is_date_column_def)
  have b: "\<forall>v. (\<forall>s. v \<noteq> JStr s) \<longrightarrow> coerce_date P v = v"
  proof (intro allI impI)
    fix v :: json assume "\<forall>s. v \<noteq> JStr s"
    then show "coerce_date P v = v" by (cases v) simp_all
  qed
  show ?thesis
    using a b normalize_row_keys [of P d] by (simp add: iso)
qed

theorem coerce_date_applied_witness:
  "coerce_date (\<lambda>s. if s \<in> {''March 3, 2020'', ''2020-03-03'', ''03/03/2020''}
                     then Some (2020, 3, 3) else None) (JStr ''March 3, 2020'')
     = JStr ''2020-03-03''
   \<and> coerce_date (\<lambda>s. if s \<in> {''March 3, 2020'', ''2020-03-03'', ''03/03/2020''}
                     then Some (2020, 3, 3) else None) (JStr ''not a date'')
     = JStr ''not a date''
   \<and> map_of (normalize_row (\<lambda>s. if s \<in> {''March 3, 2020'', ''2020-03-03'', ''03/03/2020''}
                     then Some (2020, 3, 3) else None)
        [(''saleTransDate'', JStr ''03/03/2020''), (''docDate'', JStr ''not a date''),
         (''buyerName'', JStr ''2020-03-03'')]) ''saleDate''
     = Some (JStr ''2020-03-03'')"
  (is "coerce_date ?P (JStr ?a) = ?r \<and> coerce_date ?P (JStr ?n) = JStr ?n
       \<and> map_of (normalize_row ?P ?d) ?k = Some ?r")
proof -
  note T = coerce_date_applied [of ?d ?P]
  have h1: "?P ?a = Some (2020, 3, 3)" by simp
  have h2: "?P ?n = None" by simp
  have h3: "map_of (assigned ?d) ?k = Some (JStr ''03/03/2020'')" by code_simp
  have h4: "?k \<in> DATE_KEYS" by (simp add: DATE_KEYS_def)
  from T h1 have c1: "coerce_date ?P (JStr ?a) = ?r" by blast
  from T h2 have c2: "coerce_date ?P (JStr ?n) = JStr ?n" by blast
  from T h3 have "map_of (normalize_row ?P ?d) ?k
      = Some (if ?k \<in> DATE_KEYS \<or> endswith (str_lower ?k) ''date''
              then coerce_date ?P (JStr ''03/03/2020'') else JStr ''03/03/2020'')"
    by blast
  with h4 have "map_of (normalize_row ?P ?d) ?k = Some (coerce_date ?P (JStr ''03/03/2020''))"
    by simp
  moreover have "?P ''03/03/2020'' = Some (2020, 3, 3)" by simp
  with T have "coerce_date ?P (JStr ''03/03/2020'') = ?r" by blast
  ultimately have c3: "map_of (normalize_row ?P ?d) ?k = Some ?r" by simp
  from c1 c2 c3 show ?thesis by blast
qed

section \<open>Tables and the table builder\<close>

lemma get_cell_dict_set:
  "get_cell (dict_set r c x) c' = (if c' = c then x else get_cell r c')"
  by (simp add: get_cell_def map_of_dict_set)

lemma length_column: "length (column df c) = length (rows df)"
  by (simp add: column_def)

lemma length_to_datetime: "length (to_datetime T col) = length col"
  by (simp add: to_datetime_def)

lemma columns_set_column:
  "columns (set_column df c xs) = (if c \<in> set (columns df) then columns df else columns df @ [c])"
  by (simp add: set_column_def)

lemma index_zip_update:
  "length xs = length rs \<Longrightarrow>
   map fst (map (\<lambda>(ir, x). (fst ir, dict_set (snd ir) c x)) (zip rs xs)) = map fst rs"
  by (induction xs rs rule: list_induct2) auto

lemma index_set_column:
  "length xs = length (rows df) \<Longrightarrow> map fst (rows (set_column df c xs)) = map fst (rows df)"
  using index_zip_update [of xs "rows df" c] by (simp add: set_column_def)

lemma column_set_column:
  assumes "length xs = length (rows df)"
  shows "column (set_column df c xs) c' = (if c' = c then xs else column df c')"
proof -
  have "map (\<lambda>ir. get_cell (snd ir) c') (map (\<lambda>(ir, x). (fst ir, dict_set (snd ir) c x)) (zip rs xs))
        = (if c' = c then xs else map (\<lambda>ir. get_cell (snd ir) c') rs)"
    if "length xs = length rs" for rs :: "(nat \<times> row) list"
    using that by (induction xs rs rule: list_induct2) (auto simp: get_cell_dict_set)
  with assms show ?thesis by (simp add: set_column_def column_def)
qed

lemma length_rows_set_column:
  "length xs = length (rows df) \<Longrightarrow> length (rows (set_column df c xs)) = length (rows df)"
  by (simp add: set_column_def)

lemma columns_DataFrame: "set (columns (DataFrame rs)) = (\<Union>r \<in> set rs. set (map fst r))"
  by (auto simp: DataFrame_def Let_def)

lemma index_DataFrame: "map fst (rows (DataFrame rs)) = [0..<length rs]"
  by (simp add: DataFrame_def Let_def comp_def case_prod_unfold map_fst_enumerate)

lemma get_cell_tabulate:
  "get_cell (map (\<lambda>c. (c, f c)) cs) c = (if c \<in> set cs then f c else NA)"
  by (induction cs) (auto simp: get_cell_def)

lemma map_snd_of_enumerate: "map (\<lambda>x. g (snd x)) (enumerate n rs) = map g rs"
  by (induction rs arbitrary: n) auto

lemma column_DataFrame: "column (DataFrame rs) c = raw_column rs c"
proof -
  let ?cols = "rev (remdups (rev (concat (map (map fst) rs))))"
  have cols: "set ?cols = (\<Union>r \<in> set rs. set (map fst r))" by auto
  have "(if c \<in> set ?cols then (case map_of r c of Some v \<Rightarrow> Val v | None \<Rightarrow> NA) else NA)
        = (case map_of r c of Some v \<Rightarrow> Val v | None \<Rightarrow> NA)" if "r \<in> set rs" for r
  proof (cases "map_of r c")
    case None then show ?thesis by simp
  next
    case (Some v)
    then have "c \<in> set (map fst r)" by (metis map_of_eq_None_iff option.distinct(1) set_map)
    with that have "c \<in> set ?cols" unfolding cols by blast
    then show ?thesis by simp
  qed
  then have "map (\<lambda>r. get_cell (map (\<lambda>c. (c, case map_of r c of Some v \<Rightarrow> Val v | None \<Rightarrow> NA)) ?cols) c) rs
      = raw_column rs c"
    by (simp add: get_cell_tabulate raw_column_def)
  moreover have "column (DataFrame rs) c
      = map (\<lambda>r. get_cell (map (\<lambda>c. (c, case map_of r c of Some v \<Rightarrow> Val v | None \<Rightarrow> NA)) ?cols) c) rs"
    using map_snd_of_enumerate [of "\<lambda>r. get_cell (map (\<lambda>c. (c, case map_of r c of Some v \<Rightarrow> Val v | None \<Rightarrow> NA)) ?cols) c" 0 rs]
    by (simp add: column_def DataFrame_def Let_def comp_def case_prod_unfold)
  ultimately show ?thesis by (simp only:)
qed

lemma type_date_column_columns: "columns (type_date_column T c df) = columns df"
  by (simp add: type_date_column_def columns_set_column)

lemma type_date_column_index: "map fst (rows (type_date_column T c df)) = map fst (rows df)"
  by (simp add: type_date_column_def index_set_column length_to_datetime length_column)

lemma type_date_column_column:
  "column (type_date_column T c df) c'
     = (if c' = c \<and> c \<in> set (columns df) then to_datetime T (column df c) else column df c')"
  by (simp add: type_date_column_def column_set_column length_to_datetime length_column)

lemma make_dataframe_unfold:
  "make_dataframe P T records =
     (if kept_rows P records = [] then empty_frame
      else type_date_column T ''saleDate'' (type_date_column T ''recordingDate''
             (type_date_column T ''documentDate'' (DataFrame (kept_rows P records)))))"
  by (simp add: make_dataframe_def Let_def type_date_column_def [abs_def])

lemma make_dataframe_index:
  "map fst (rows (make_dataframe P T records)) = [0..<length (kept_rows P records)]"
  by (simp add: make_dataframe_unfold type_date_column_index index_DataFrame empty_frame_def)

lemma make_dataframe_columns:
  "kept_rows P records \<noteq> [] \<Longrightarrow>
   columns (make_dataframe P T records) = columns (DataFrame (kept_rows P records))"
  by (simp add: make_dataframe_unfold type_date_column_columns)

lemma raw_column_Nil: "raw_column [] c = []"
  by (simp add: raw_column_def)

lemma make_dataframe_column:
  "column (make_dataframe P T records) c
     = (if c \<in> set date_columns \<and> c \<in> set (columns (make_dataframe P T records))
        then to_datetime T (raw_column (kept_rows P records) c)
        else raw_column (kept_rows P records) c)"
proof (cases "kept_rows P records = []")
  case True
  then show ?thesis
    by (simp add: make_dataframe_unfold empty_frame_def column_def raw_column_Nil)
next
  case False
  then show ?thesis
    by (simp add: make_dataframe_columns)
      (auto simp: make_dataframe_unfold type_date_column_column
        type_date_column_columns column_DataFrame date_columns_def)
qed

lemma assigned_empty:
  assumes "\<forall>e \<in> set colmap. \<forall>c \<in> set (snd e). \<not> qualifies d c"
  shows "assigned d = []"
proof -
  have "filter (\<lambda>e. first_candidate d (snd e) \<noteq> None) colmap = []"
    using assms by (simp add: filter_empty_conv first_candidate_None)
  then have "map fst (assigned d) = []" by (simp add: assigned_keys)
  then show ?thesis by simp
qed

lemma normalize_row_empty:
  "\<forall>e \<in> set colmap. \<forall>c \<in> set (snd e). \<not> qualifies d c \<Longrightarrow> normalize_row P d = []"
  by (simp add: normalize_row_eq assigned_empty)

lemma make_dataframe_cong:
  "kept_rows P r1 = kept_rows P r2 \<Longrightarrow> make_dataframe P T r1 = make_dataframe P T r2"
  by (simp add: make_dataframe_def)

text \<open>
  C6. \<open>make_dataframe\<close> applies the field normalizer to each record and keeps exactly
  the rows in which some value, converted to a string and trimmed, is not empty: the table
  has one row per kept row, in order, and outside the date columns its cells are the kept
  values. A record none of whose aliases holds a value other than null or the empty string
  normalizes to an empty row and contributes nothing to the table. When no row is kept
  the result is the empty table, an ordinary result.
\<close>

theorem make_dataframe_drops_blank_rows:
  "kept_rows P records
     = filter (\<lambda>r. \<exists>v \<in> set (map snd r). str_strip_nonempty v) (map (normalize_row P) records)
   \<and> map fst (rows (make_dataframe P T records)) = [0..<length (kept_rows P records)]
   \<and> (\<forall>c. c \<notin> set date_columns \<longrightarrow>
         column (make_dataframe P T records) c = raw_column (kept_rows P records) c)
   \<and> (kept_rows P records = [] \<longrightarrow>
         make_dataframe P T records = empty_frame \<and> rows (make_dataframe P T records) = [])
   \<and> ((\<forall>e \<in> set colmap. \<forall>c \<in> set (snd e). \<not> qualifies d c) \<longrightarrow>
         normalize_row P d = []
         \<and> kept_rows P (before @ d # after) = kept_rows P (before @ after)
         \<and> make_dataframe P T (before @ d # after) = make_dataframe P T (before @ after))"
proof (intro conjI allI impI)
  show "kept_rows P records
     = filter (\<lambda>r. \<exists>v \<in> set (map snd r). str_strip_nonempty v) (map (normalize_row P) records)"
    by (simp add: kept_rows_def list_ex_iff)
  show "map fst (rows (make_dataframe P T records)) = [0..<length (kept_rows P records)]"
    by (rule make_dataframe_index)
  show "column (make_dataframe P T records) c = raw_column (kept_rows P records) c"
    if "c \<notin> set date_columns" for c
    using that by (simp add: make_dataframe_column)
  show "make_dataframe P T records = empty_frame" if "kept_rows P records = []"
    using that by (simp add: make_dataframe_def)
  show "rows (make_dataframe P T records) = []" if "kept_rows P records = []"
    using that by (simp add: make_dataframe_def empty_frame_def)
next
  assume a: "\<forall>e \<in> set colmap. \<forall>c \<in> set (snd e). \<not> qualifies d c"
  then show n: "normalize_row P d = []" by (rule normalize_row_empty)
  then show k: "kept_rows P (before @ d # after) = kept_rows P (before @ after)"
    by (simp add: kept_rows_def)
  then show "make_dataframe P T (before @ d # after) = make_dataframe P T (before @ after)"
    by (rule make_dataframe_cong)
qed

theorem make_dataframe_drops_blank_rows_witness:
  "map fst (rows (make_dataframe sample_parser sample_reader
      [[(''lender'', JStr ''Acme'')],
       [(''lender'', JStr []), (''price'', JNull), (''note'', JStr ''x'')],
       [(''buyerName'', JStr ''  '')]])) = [0]
   \<and> make_dataframe sample_parser sample_reader
      [[(''lender'', JStr []), (''price'', JNull), (''note'', JStr ''x'')]] = empty_frame"
  (is "map fst (rows (make_dataframe ?P ?T ?recs)) = [0] \<and> make_dataframe ?P ?T [?d] = empty_frame")
proof -
  have k: "kept_rows ?P ?recs = [[(''lenderName'', JStr ''Acme'')]]" by code_simp
  have "map fst (rows (make_dataframe ?P ?T ?recs)) = [0..<length (kept_rows ?P ?recs)]"
    using make_dataframe_drops_blank_rows [of ?P ?recs ?T] by blast
  then have a: "map fst (rows (make_dataframe ?P ?T ?recs)) = [0]" by (simp add: k)
  have q: "\<forall>e \<in> set colmap. \<forall>c \<in> set (snd e). \<not> qualifies ?d c"
    by (simp add: colmap_def qualifies_def)
  have k0: "kept_rows ?P [] = []" by (simp add: kept_rows_def)
  from make_dataframe_drops_blank_rows [of ?P "[]" ?T ?d "[]" "[]"] q
  have "make_dataframe ?P ?T ([] @ ?d # []) = make_dataframe ?P ?T ([] @ [])" by blast
  moreover from make_dataframe_drops_blank_rows [of ?P "[]" ?T] k0
  have "make_dataframe ?P ?T [] = empty_frame" by blast
  ultimately have b: "make_dataframe ?P ?T [?d] = empty_frame" by simp
  from a b show ?thesis by (rule conjI)
qed

lemma nth_raw_column:
  "k < length rs \<Longrightarrow> raw_column rs c ! k = (case map_of (rs ! k) c of Some v \<Rightarrow> Val v | None \<Rightarrow> NA)"
  by (simp add: raw_column_def)

lemma to_datetime_failure:
  assumes "k < length col" "col ! k = Val v" "T col v = None"
  shows "to_datetime T col ! k = NA"
  using assms by (simp add: to_datetime_def)

text \<open>
  C7. A malformed date value is never an error. In the field normalizer a string the
  parser rejects stays as it is. In the table builder each of the three designated date
  columns that is present is the date-typed form of the kept values, of the same length: a
  value that cannot be read becomes a missing cell, and the table keeps one row per kept
  row whatever the reader returns.
\<close>

theorem malformed_date_is_not_an_error:
  "(P s = None \<longrightarrow> coerce_date P (JStr s) = JStr s)
   \<and> (\<forall>f. map_of (assigned d) f = Some (JStr s) \<and> P s = None \<longrightarrow>
         map_of (normalize_row P d) f = Some (JStr s))
   \<and> map fst (rows (make_dataframe P T records)) = [0..<length (kept_rows P records)]
   \<and> (\<forall>c \<in> set date_columns. c \<in> set (columns (make_dataframe P T records)) \<longrightarrow>
         column (make_dataframe P T records) c
           = to_datetime T (raw_column (kept_rows P records) c))
   \<and> (\<forall>c \<in> set date_columns. \<forall>k < length (kept_rows P records). \<forall>v.
         c \<in> set (columns (make_dataframe P T records))
         \<and> map_of (kept_rows P records ! k) c = Some v
         \<and> T (raw_column (kept_rows P records) c) v = None \<longrightarrow>
           column (make_dataframe P T records) c ! k = NA)
   \<and> date_columns = [''documentDate'', ''recordingDate'', ''saleDate'']"
proof (intro conjI allI impI ballI)
  show "coerce_date P (JStr s) = JStr s" if "P s = None" using that by simp
  show "map_of (normalize_row P d) f = Some (JStr s)"
    if "map_of (assigned d) f = Some (JStr s) \<and> P s = None" for f
    using that by (simp add: normalize_row_lookup)
  show "map fst (rows (make_dataframe P T records)) = [0..<length (kept_rows P records)]"
    by (rule make_dataframe_index)
  show "column (make_dataframe P T records) c = to_datetime T (raw_column (kept_rows P records) c)"
    if "c \<in> set date_columns" "c \<in> set (columns (make_dataframe P T records))" for c
    using that by (simp add: make_dataframe_column)
  show "column (make_dataframe P T records) c ! k = NA"
    if c: "c \<in> set date_columns" and k: "k < length (kept_rows P records)"
      and h: "c \<in> set (columns (make_dataframe P T records))
         \<and> map_of (kept_rows P records ! k) c = Some v
         \<and> T (raw_column (kept_rows P records) c) v = None" for c k v
  proof -
    have "column (make_dataframe P T records) c = to_datetime T (raw_column (kept_rows P records) c)"
      using c h by (simp add: make_dataframe_column)
    moreover have "raw_column (kept_rows P records) c ! k = Val v"
      using k h by (simp add: nth_raw_column)
    moreover have "k < length (raw_column (kept_rows P records) c)"
      using k by (simp add: raw_column_def)
    ultimately show ?thesis using h by (simp add: to_datetime_failure)
  qed
  show "date_columns = [''documentDate'', ''recordingDate'', ''saleDate'']"
    by (simp add: date_columns_def)
qed

theorem malformed_date_is_not_an_error_witness:
  "column (make_dataframe sample_parser sample_reader
      [[(''saleTransDate'', JStr ''not a date''), (''lender'', JStr ''Acme'')],
       [(''saleTransDate'', JStr ''2019-07-01'')]]) ''saleDate''
     = [NA, Time ((2019, 7, 1), 0)]
   \<and> map fst (rows (make_dataframe sample_parser sample_reader
      [[(''saleTransDate'', JStr ''not a date''), (''lender'', JStr ''Acme'')],
       [(''saleTransDate'', JStr ''2019-07-01'')]])) = [0, 1]
   \<and> coerce_date sample_parser (JStr ''not a date'') = JStr ''not a date''"
  (is "column (make_dataframe ?P ?T ?recs) ?c = ?col \<and> map fst (rows (make_dataframe ?P ?T ?recs)) = ?ix
       \<and> coerce_date ?P (JStr ?s) = JStr ?s")
proof -
  note M = malformed_date_is_not_an_error [of ?P ?s "[]" ?T ?recs]
  have k: "kept_rows ?P ?recs
      = [[(''lenderName'', JStr ''Acme''), (''saleDate'', JStr ''not a date'')],
         [(''saleDate'', JStr ''2019-07-01'')]]"
    by code_simp
  have cin: "?c \<in> set (columns (make_dataframe ?P ?T ?recs))" by code_simp
  have cd: "?c \<in> set date_columns" by (simp add: date_columns_def)
  from M cd cin have "column (make_dataframe ?P ?T ?recs) ?c
      = to_datetime ?T (raw_column (kept_rows ?P ?recs) ?c)" by blast
  moreover have "to_datetime ?T (raw_column (kept_rows ?P ?recs) ?c) = ?col" by code_simp
  ultimately have a: "column (make_dataframe ?P ?T ?recs) ?c = ?col" by simp
  from M have "map fst (rows (make_dataframe ?P ?T ?recs)) = [0..<length (kept_rows ?P ?recs)]"
    by blast
  then have b: "map fst (rows (make_dataframe ?P ?T ?recs)) = ?ix" by (simp add: k upt_rec)
  have "?P ?s = None" by code_simp
  with M have c: "coerce_date ?P (JStr ?s) = JStr ?s" by blast
  from a b c show ?thesis by blast
qed

section \<open>Nesting depth, sorting and filtering\<close>






lemma filter_index:
  "map fst xs = map fst ys \<Longrightarrow> \<forall>k < length xs. A (xs ! k) = B (ys ! k) \<Longrightarrow>
   map fst (filter A xs) = map fst (filter B ys)"
proof (induction xs arbitrary: ys)
  case Nil
  then show ?case by simp
next
  case (Cons x xs)
  then obtain y ys' where ys: "ys = y # ys'" by (cases ys) auto
  from Cons.prems ys have h: "A x = B y" by (metis length_greater_0_conv list.distinct(1) nth_Cons_0)
  have t: "\<forall>k < length xs. A (xs ! k) = B (ys' ! k)"
  proof (intro allI impI)
    fix k assume "k < length xs"
    then have "Suc k < length (x # xs)" by simp
    with Cons.prems(2) have "A ((x # xs) ! Suc k) = B (ys ! Suc k)" by blast
    then show "A (xs ! k) = B (ys' ! k)" by (simp add: ys)
  qed
  from Cons.prems ys have "map fst xs = map fst ys'" and "fst x = fst y" by simp_all
  with Cons.IH [OF _ t] h ys show ?case by simp
qed

lemma mset_sort_values_desc: "mset (sort_values_desc key xs) = mset xs"
proof -
  have "mset (filter (\<lambda>x. key x \<noteq> None) xs) + mset (filter (\<lambda>x. key x = None) xs) = mset xs"
    by (induction xs) auto
  then show ?thesis by (simp add: sort_values_desc_def Let_def)
qed





section \<open>Focus view: columns, filter, order\<close>

lemma nth_column: "k < length (rows df) \<Longrightarrow> column df c ! k = get_cell (snd (rows df ! k)) c"
  by (simp add: column_def)

lemma notna_replace_codes: "notna (replace_codes c) = notna c"
  by (cases c rule: replace_codes.cases) (auto simp: notna_def split: option.splits)

lemma focus_columns_index: "map fst (rows (focus_columns T df bd)) = map fst (rows df)"
  by (simp add: focus_columns_def Let_def index_set_column length_rows_set_column
      length_to_datetime length_column comp_def)

lemma focus_columns_length: "length (rows (focus_columns T df bd)) = length (rows df)"
  using focus_columns_index [of T df bd] by (metis length_map)

lemma focus_columns_columns:
  "columns (focus_columns T df bd)
     = ''Purchase Date'' # (if ''loanType'' \<in> set (columns df) then [''Loan Type''] else [])
         @ (if ''lenderName'' \<in> set (columns df) then [''Lender Name''] else [])"
  by (simp add: focus_columns_def Let_def columns_set_column)

lemma focus_columns_loan_type:
  "''loanType'' \<in> set (columns df) \<Longrightarrow>
   column (focus_columns T df bd) ''Loan Type'' = map replace_codes (column df ''loanType'')"
  by (simp add: focus_columns_def Let_def column_set_column length_rows_set_column
      length_to_datetime length_column)

lemma focus_columns_lender:
  "''lenderName'' \<in> set (columns df) \<Longrightarrow>
   column (focus_columns T df bd) ''Lender Name'' = column df ''lenderName''"
  by (simp add: focus_columns_def Let_def column_set_column length_rows_set_column
      length_to_datetime length_column)


lemma focus_filter_rows:
  "rows (focus_filter (focus_columns T df bd))
     = filter (\<lambda>ir.
         if ''loanType'' \<in> set (columns df) \<and> ''lenderName'' \<in> set (columns df)
         then notna (get_cell (snd ir) ''Loan Type'') \<or> notna (get_cell (snd ir) ''Lender Name'')
         else if ''loanType'' \<in> set (columns df) then notna (get_cell (snd ir) ''Loan Type'')
         else if ''lenderName'' \<in> set (columns df) then notna (get_cell (snd ir) ''Lender Name'')
         else True) (rows (focus_columns T df bd))"
  by (simp add: focus_filter_def filter_rows_def focus_columns_columns)

lemma focus_filter_index:
  "map fst (rows (focus_filter (focus_columns T df bd)))
     = map fst (filter (\<lambda>ir. retained df (snd ir)) (rows df))"
  unfolding focus_filter_rows
proof (rule filter_index)
  let ?V = "focus_columns T df bd"
  show "map fst (rows ?V) = map fst (rows df)" by (rule focus_columns_index)
  show "\<forall>k < length (rows ?V).
     (if ''loanType'' \<in> set (columns df) \<and> ''lenderName'' \<in> set (columns df)
         then notna (get_cell (snd (rows ?V ! k)) ''Loan Type'') \<or> notna (get_cell (snd (rows ?V ! k)) ''Lender Name'')
         else if ''loanType'' \<in> set (columns df) then notna (get_cell (snd (rows ?V ! k)) ''Loan Type'')
         else if ''lenderName'' \<in> set (columns df) then notna (get_cell (snd (rows ?V ! k)) ''Lender Name'')
         else True) = retained df (snd (rows df ! k))"
  proof (intro allI impI)
    fix k assume "k < length (rows ?V)"
    then have k: "k < length (rows df)" and kv: "k < length (rows ?V)"
      by (simp_all add: focus_columns_length)
    have lt: "get_cell (snd (rows ?V ! k)) ''Loan Type''
        = replace_codes (get_cell (snd (rows df ! k)) ''loanType'')"
      if "''loanType'' \<in> set (columns df)"
      using focus_columns_loan_type [OF that, of T bd] k kv
      by (metis nth_column nth_map length_column)
    have ln: "get_cell (snd (rows ?V ! k)) ''Lender Name''
        = get_cell (snd (rows df ! k)) ''lenderName''"
      if "''lenderName'' \<in> set (columns df)"
      using focus_columns_lender [OF that, of T bd] k kv
      by (metis nth_column)
    show "(if ''loanType'' \<in> set (columns df) \<and> ''lenderName'' \<in> set (columns df)
         then notna (get_cell (snd (rows ?V ! k)) ''Loan Type'') \<or> notna (get_cell (snd (rows ?V ! k)) ''Lender Name'')
         else if ''loanType'' \<in> set (columns df) then notna (get_cell (snd (rows ?V ! k)) ''Loan Type'')
         else if ''lenderName'' \<in> set (columns df) then notna (get_cell (snd (rows ?V ! k)) ''Lender Name'')
         else True) = retained df (snd (rows df ! k))"
      using lt ln by (auto simp: retained_def notna_replace_codes)
  qed
qed


lemma focus_sorted_index: "mset (map fst (rows (focus_sorted view))) = mset (map fst (rows view))"
proof -
  let ?V = "set_column view ''Year'' (map dt_year (column view ''Purchase Date''))"
  have "mset (map fst (rows (focus_sorted view))) = mset (map fst (rows ?V))"
    by (simp add: focus_sorted_def Let_def mset_sort_values_desc)
  also have "map fst (rows ?V) = map fst (rows view)"
    by (simp add: index_set_column length_column)
  finally show ?thesis .
qed

lemma index_select_columns: "map fst (rows (select_columns df cs)) = map fst (rows df)"
  by (simp add: select_columns_def comp_def)



lemma length_rows_select_columns: "length (rows (select_columns df cs)) = length (rows df)"
  by (simp add: select_columns_def)

lemma focus_output_index: "map fst (rows (focus_output view)) = map fst (rows view)"
  by (simp add: focus_output_def Let_def index_set_column index_select_columns length_column)




section \<open>Focus view: retention and order\<close>

lemma focus_view_index:
  assumes "\<not> frame_empty df" "best_date_column df = Some bd"
  shows "mset (map fst (rows (make_focus_loans_table T df)))
           = mset (map fst (filter (\<lambda>ir. retained df (snd ir)) (rows df)))"
proof -
  let ?V = "focus_filter (focus_columns T df bd)"
  show ?thesis
  proof (cases "frame_empty ?V")
    case True
    with assms have "make_focus_loans_table T df = ?V"
      by (simp add: make_focus_loans_table_def Let_def)
    then show ?thesis by (simp only: focus_filter_index)
  next
    case False
    with assms have "make_focus_loans_table T df = focus_output (focus_sorted ?V)"
      by (simp add: make_focus_loans_table_def Let_def)
    then have "mset (map fst (rows (make_focus_loans_table T df)))
        = mset (map fst (rows (focus_sorted ?V)))"
      by (simp only: focus_output_index)
    also have "\<dots> = mset (map fst (rows ?V))" by (rule focus_sorted_index)
    also have "\<dots> = mset (map fst (filter (\<lambda>ir. retained df (snd ir)) (rows df)))"
      by (simp only: focus_filter_index)
    finally show ?thesis .
  qed
qed

lemma best_date_column_None:
  "best_date_column df = None \<longleftrightarrow>
     ''saleDate'' \<notin> set (columns df) \<and> ''documentDate'' \<notin> set (columns df)
     \<and> ''recordingDate'' \<notin> set (columns df)"
  by (auto simp: best_date_column_def)

text \<open>
  C4 (as amended). For every non-empty table that has a date column (\<open>saleDate\<close>,
  \<open>documentDate\<close> or \<open>recordingDate\<close>), the rows of the focus view are, by their index
  labels, exactly the rows of the table that pass the retention test: with both the
  \<open>loanType\<close> and the \<open>lenderName\<close> column, at least one of the two cells is not null;
  with only one of the two columns, that column's cell is not null. For a non-empty table
  without any date column the focus view has no rows.
\<close>

theorem focus_view_retention:
  "(\<not> frame_empty df
    \<and> (''saleDate'' \<in> set (columns df) \<or> ''documentDate'' \<in> set (columns df)
       \<or> ''recordingDate'' \<in> set (columns df)) \<longrightarrow>
     (''loanType'' \<in> set (columns df) \<and> ''lenderName'' \<in> set (columns df) \<longrightarrow>
        mset (map fst (rows (make_focus_loans_table T df)))
          = mset (map fst (filter (\<lambda>ir. notna (get_cell (snd ir) ''loanType'')
                                       \<or> notna (get_cell (snd ir) ''lenderName'')) (rows df))))
     \<and> (''loanType'' \<in> set (columns df) \<and> ''lenderName'' \<notin> set (columns df) \<longrightarrow>
        mset (map fst (rows (make_focus_loans_table T df)))
          = mset (map fst (filter (\<lambda>ir. notna (get_cell (snd ir) ''loanType'')) (rows df))))
     \<and> (''loanType'' \<notin> set (columns df) \<and> ''lenderName'' \<in> set (columns df) \<longrightarrow>
        mset (map fst (rows (make_focus_loans_table T df)))
          = mset (map fst (filter (\<lambda>ir. notna (get_cell (snd ir) ''lenderName'')) (rows df)))))
   \<and> (\<not> frame_empty df
      \<and> ''saleDate'' \<notin> set (columns df) \<and> ''documentDate'' \<notin> set (columns df)
      \<and> ''recordingDate'' \<notin> set (columns df) \<longrightarrow>
        rows (make_focus_loans_table T df) = [])"
proof (intro impI conjI)
  assume "\<not> frame_empty df
      \<and> ''saleDate'' \<notin> set (columns df) \<and> ''documentDate'' \<notin> set (columns df)
      \<and> ''recordingDate'' \<notin> set (columns df)"
  then show "rows (make_focus_loans_table T df) = []"
    by (simp add: make_focus_loans_table_def best_date_column_None [THEN iffD2])
next
  assume h: "\<not> frame_empty df
    \<and> (''saleDate'' \<in> set (columns df) \<or> ''documentDate'' \<in> set (columns df)
       \<or> ''recordingDate'' \<in> set (columns df))"
  then have "best_date_column df \<noteq> None" by (simp add: best_date_column_None)
  with h obtain bd where a: "\<not> frame_empty df" "best_date_column df = Some bd" by auto
  note ix = focus_view_index [OF a, of T]
  {
    assume "''loanType'' \<in> set (columns df) \<and> ''lenderName'' \<in> set (columns df)"
    then have "retained df = (\<lambda>r. notna (get_cell r ''loanType'') \<or> notna (get_cell r ''lenderName''))"
      by (simp add: retained_def fun_eq_iff)
    with ix show "mset (map fst (rows (make_focus_loans_table T df)))
          = mset (map fst (filter (\<lambda>ir. notna (get_cell (snd ir) ''loanType'')
                                       \<or> notna (get_cell (snd ir) ''lenderName'')) (rows df)))"
      by (simp only:)
  }
  {
    assume "''loanType'' \<in> set (columns df) \<and> ''lenderName'' \<notin> set (columns df)"
    then have "retained df = (\<lambda>r. notna (get_cell r ''loanType''))"
      by (simp add: retained_def fun_eq_iff)
    with ix show "mset (map fst (rows (make_focus_loans_table T df)))
          = mset (map fst (filter (\<lambda>ir. notna (get_cell (snd ir) ''loanType'')) (rows df)))"
      by (simp only:)
  }
  {
    assume "''loanType'' \<notin> set (columns df) \<and> ''lenderName'' \<in> set (columns df)"
    then have "retained df = (\<lambda>r. notna (get_cell r ''lenderName''))"
      by (simp add: retained_def fun_eq_iff)
    with ix show "mset (map fst (rows (make_focus_loans_table T df)))
          = mset (map fst (filter (\<lambda>ir. notna (get_cell (snd ir) ''lenderName'')) (rows df)))"
      by (simp only:)
  }
qed


section \<open>End to end\<close>

lemma iso_2019_07_01:
  "isoformat (2019, 7, 1) = ''2019-07-01''" "isoformat (2019, 7, Suc 0) = ''2019-07-01''"
  by code_simp+

text \<open>
  C9. For the sample document the whole pipeline (harvest, normalize, table, focus view)
  gives a focus view with exactly one row: year 2019, purchase date \<open>2019-07-01\<close>, loan
  type \<open>Conventional\<close> and lender \<open>Acme Bank\<close>, given that both library readers read
  the string \<open>2019-07-01\<close> as 1 July 2019.
\<close>

theorem end_to_end_sample:
  assumes P: "P ''2019-07-01'' = Some (2019, 7, 1)"
    and T: "map_option fst (T [Val (JStr ''2019-07-01'')] (JStr ''2019-07-01'')) = Some (2019, 7, 1)"
  shows "make_focus_loans_table T (make_dataframe P T (map dict_of (harvest_records sample_document)))
    = \<lparr>columns = [''Year'', ''Purchase Date'', ''Loan Type'', ''Lender Name''],
       rows = [(0, [(''Year'', Val (JNum 2019)), (''Purchase Date'', Val (JStr ''2019-07-01'')),
                    (''Loan Type'', Val (JStr ''Conventional'')),
                    (''Lender Name'', Val (JStr ''Acme Bank''))])]\<rparr>"
proof -
  let ?rec = "[(''amountLoan'', JNum 250000), (''loanTypeCode'', JStr ''CONV''),
               (''lender1'', JStr ''Acme Bank''), (''saleTransDate'', JStr ''2019-07-01'')]"
  let ?row = "[(''loanAmount'', JNum 250000), (''loanType'', JStr ''CONV''),
               (''lenderName'', JStr ''Acme Bank''), (''saleDate'', JStr ''2019-07-01'')]"
  have h: "map dict_of (harvest_records sample_document) = [?rec]" by code_simp
  have a: "assigned ?rec = ?row" by code_simp
  have d: "\<not> is_date_column ''loanAmount''" "\<not> is_date_column ''loanType''"
    "\<not> is_date_column ''lenderName''" "is_date_column ''saleDate''"
    by code_simp+
  have n: "normalize_row P ?rec = ?row"
    by (simp add: normalize_row_eq a coerce_entry_def d P iso_2019_07_01)
  have s: "str_strip_nonempty (JNum 250000)" by simp
  have k: "kept_rows P [?rec] = [?row]"
    by (simp add: kept_rows_def n)
  have f: "DataFrame [?row]
      = \<lparr>columns = [''loanAmount'', ''loanType'', ''lenderName'', ''saleDate''],
         rows = [(0, [(''loanAmount'', Val (JNum 250000)), (''loanType'', Val (JStr ''CONV'')),
                      (''lenderName'', Val (JStr ''Acme Bank'')),
                      (''saleDate'', Val (JStr ''2019-07-01''))])]\<rparr>"
    by code_simp
  from T obtain t where t: "T [Val (JStr ''2019-07-01'')] (JStr ''2019-07-01'') = Some t"
    and ft0: "fst t = (2019, 7, 1)" by auto
  from ft0 obtain ns where ft: "t = ((2019, 7, 1), ns)" by (cases t) auto
  have m: "make_dataframe P T [?rec]
      = \<lparr>columns = [''loanAmount'', ''loanType'', ''lenderName'', ''saleDate''],
         rows = [(0, [(''loanAmount'', Val (JNum 250000)), (''loanType'', Val (JStr ''CONV'')),
                      (''lenderName'', Val (JStr ''Acme Bank'')),
                      (''saleDate'', Time t)])]\<rparr>"
    by (simp add: make_dataframe_unfold k f type_date_column_def set_column_def to_datetime_def
        column_def get_cell_def t)
  show ?thesis
    unfolding h m
    by (simp add: make_focus_loans_table_def frame_empty_def best_date_column_def
        focus_columns_def focus_filter_def filter_rows_def focus_sorted_def sort_values_desc_def
        focus_output_def select_columns_def set_column_def column_def get_cell_def
        to_datetime_def notna_def loan_type_labels_def Let_def ft iso_2019_07_01)
qed

theorem end_to_end_sample_witness:
  "make_focus_loans_table sample_reader
     (make_dataframe sample_parser sample_reader (map dict_of (harvest_records sample_document)))
    = \<lparr>columns = [''Year'', ''Purchase Date'', ''Loan Type'', ''Lender Name''],
       rows = [(0, [(''Year'', Val (JNum 2019)), (''Purchase Date'', Val (JStr ''2019-07-01'')),
                    (''Loan Type'', Val (JStr ''Conventional'')),
                    (''Lender Name'', Val (JStr ''Acme Bank''))])]\<rparr>"
proof -
  have P: "sample_parser ''2019-07-01'' = Some (2019, 7, 1)" by code_simp
  have T: "map_option fst (sample_reader [Val (JStr ''2019-07-01'')] (JStr ''2019-07-01''))
      = Some (2019, 7, 1)" by code_simp
  from end_to_end_sample [of sample_parser sample_reader, OF P T] show ?thesis .
qed

section \<open>Sample tables\<close>

lemma sample_kept:
  "kept_rows sample_parser sample_records =
     [[(''lenderName'', JStr ''Acme''), (''saleDate'', JStr ''2019-07-01'')],
      [(''salePrice'', JNum 3), (''saleDate'', JStr ''2020-03-03'')],
      [(''documentDate'', JStr ''2020-03-03''), (''loanType'', JStr ''FHA''),
       (''saleDate'', JStr ''2020-03-03'')],
      [(''lenderName'', JStr ''Last''), (''saleDate'', JStr ''never'')]]"
  by code_simp


lemma sample_frame:
  "DataFrame
     [[(''lenderName'', JStr ''Acme''), (''saleDate'', JStr ''2019-07-01'')],
      [(''salePrice'', JNum 3), (''saleDate'', JStr ''2020-03-03'')],
      [(''documentDate'', JStr ''2020-03-03''), (''loanType'', JStr ''FHA''),
       (''saleDate'', JStr ''2020-03-03'')],
      [(''lenderName'', JStr ''Last''), (''saleDate'', JStr ''never'')]]
   = \<lparr>columns = [''lenderName'', ''saleDate'', ''salePrice'', ''documentDate'', ''loanType''],
      rows =
        [(0, [(''lenderName'', Val (JStr ''Acme'')), (''saleDate'', Val (JStr ''2019-07-01'')),
              (''salePrice'', NA), (''documentDate'', NA), (''loanType'', NA)]),
         (1, [(''lenderName'', NA), (''saleDate'', Val (JStr ''2020-03-03'')),
              (''salePrice'', Val (JNum 3)), (''documentDate'', NA), (''loanType'', NA)]),
         (2, [(''lenderName'', NA), (''saleDate'', Val (JStr ''2020-03-03'')),
              (''salePrice'', NA), (''documentDate'', Val (JStr ''2020-03-03'')),
              (''loanType'', Val (JStr ''FHA''))]),
         (3, [(''lenderName'', Val (JStr ''Last'')), (''saleDate'', Val (JStr ''never'')),
              (''salePrice'', NA), (''documentDate'', NA), (''loanType'', NA)])]\<rparr>"
  by (simp add: DataFrame_def enumerate_eq_zip upt_rec)

lemma sample_table_eq:
  "make_dataframe sample_parser sample_reader sample_records = sample_table"
  by (simp add: make_dataframe_unfold sample_kept sample_frame type_date_column_def
      set_column_def to_datetime_def column_def get_cell_def sample_reader_def
      sample_parser_def sample_table_def)




lemma sale_only_table:
  "make_dataframe sample_parser sample_reader sale_only_records
   = \<lparr>columns = [''salePrice'', ''saleDate''],
      rows = [(0, [(''salePrice'', Val (JNum 3)), (''saleDate'', Time ((2019, 7, 1), 0))])]\<rparr>"
proof -
  have "kept_rows sample_parser sale_only_records
      = [[(''salePrice'', JNum 3), (''saleDate'', JStr ''2019-07-01'')]]"
    by code_simp
  then show ?thesis
    by (simp add: make_dataframe_unfold DataFrame_def enumerate_eq_zip upt_rec
        type_date_column_def set_column_def to_datetime_def column_def get_cell_def
        sample_reader_def sample_parser_def)
qed

lemma undated_loan_table:
  "make_dataframe sample_parser sample_reader undated_loan_records
   = \<lparr>columns = [''salePrice'', ''loanType''],
      rows = [(0, [(''salePrice'', Val (JNum 3)), (''loanType'', Val (JStr ''FHA''))])]\<rparr>"
proof -
  have "kept_rows sample_parser undated_loan_records
      = [[(''salePrice'', JNum 3), (''loanType'', JStr ''FHA'')]]"
    by code_simp
  then show ?thesis
    by (simp add: make_dataframe_unfold DataFrame_def enumerate_eq_zip upt_rec
        type_date_column_def set_column_def to_datetime_def column_def get_cell_def
        sample_reader_def sample_parser_def)
qed

theorem focus_view_retention_witness:
  "mset (map fst (rows (make_focus_loans_table sample_reader
      (make_dataframe sample_parser sample_reader sample_records)))) = mset [0, 2, 3]"
proof -
  have ne: "\<not> frame_empty sample_table" by (simp add: sample_table_def frame_empty_def)
  have dc: "''saleDate'' \<in> set (columns sample_table)" by (simp add: sample_table_def)
  have lt: "''loanType'' \<in> set (columns sample_table)" by (simp add: sample_table_def)
  have ln: "''lenderName'' \<in> set (columns sample_table)" by (simp add: sample_table_def)
  from focus_view_retention [of sample_table sample_reader] ne dc lt ln
  have "mset (map fst (rows (make_focus_loans_table sample_reader sample_table)))
          = mset (map fst (filter (\<lambda>ir. notna (get_cell (snd ir) ''loanType'')
                                       \<or> notna (get_cell (snd ir) ''lenderName''))
                             (rows sample_table)))"
    by blast
  moreover have "map fst (filter (\<lambda>ir. notna (get_cell (snd ir) ''loanType'')
                                       \<or> notna (get_cell (snd ir) ''lenderName''))
                             (rows sample_table)) = [0, 2, 3]"
    by (simp add: sample_table_def notna_def get_cell_def)
  ultimately show ?thesis by (simp only: sample_table_eq)
qed

text \<open>
  Without the restriction to tables with a date column and a loan column the rule fails
  twice. A table of sale records with a date but neither a
  \<open>loanType\<close> nor a \<open>lenderName\<close> column passes no filter: its focus view keeps the row.
  A table with a non-null \<open>loanType\<close> but no date column gives an empty focus view.
\<close>

theorem focus_view_retention_counterexample:
  "\<not> frame_empty (make_dataframe sample_parser sample_reader sale_only_records)
   \<and> ''loanType'' \<notin> set (columns (make_dataframe sample_parser sample_reader sale_only_records))
   \<and> ''lenderName'' \<notin> set (columns (make_dataframe sample_parser sample_reader sale_only_records))
   \<and> rows (make_focus_loans_table sample_reader
             (make_dataframe sample_parser sample_reader sale_only_records))
       = [(0, [(''Year'', Val (JNum 2019)), (''Purchase Date'', Val (JStr ''2019-07-01''))])]
   \<and> \<not> frame_empty (make_dataframe sample_parser sample_reader undated_loan_records)
   \<and> ''loanType'' \<in> set (columns (make_dataframe sample_parser sample_reader undated_loan_records))
   \<and> column (make_dataframe sample_parser sample_reader undated_loan_records) ''loanType''
       = [Val (JStr ''FHA'')]
   \<and> rows (make_focus_loans_table sample_reader
             (make_dataframe sample_parser sample_reader undated_loan_records)) = []"
proof -
  have iso: "isoformat (2019, 7, Suc 0) = ''2019-07-01''" "isoformat (2019, 7, 1) = ''2019-07-01''"
    by code_simp+
  show ?thesis
    unfolding sale_only_table undated_loan_table
    by (simp add: make_focus_loans_table_def frame_empty_def
        best_date_column_def focus_columns_def focus_filter_def filter_rows_def focus_sorted_def
        sort_values_desc_def focus_output_def select_columns_def set_column_def column_def
        get_cell_def to_datetime_def notna_def loan_type_labels_def Let_def iso)
qed


end
